theory Spec2Isabelle
  imports Complex_Main
begin

section \<open>Numbers and failures of the Python source\<close>

text \<open>
  The dashboard computes with Python floats. They are modelled as exact reals, so every
  statement below is about exact arithmetic; rounding of the binary floating-point format
  is outside the model. The two places where the source can leave the real numbers are
  kept: a division of two Python floats by zero raises, and a division of a numpy scalar
  by zero yields an infinity or a NaN (type \<open>npfloat\<close> below).
\<close>

datatype py_error = ZeroDivisionError | OverflowError


section \<open>Affordability calculator (modules/affordability_calculator.py)\<close>

text \<open>
  The values read from the form of \<open>show_affordability_calculator\<close>. The number inputs
  are integers (integer \<open>min_value\<close>, \<open>value\<close> and \<open>step\<close>), the interest slider is a
  float, the ratio and the term sliders are integers.
\<close>

record affordability_form =
  yearly_income :: int
  additional_income :: int
  down_payment :: int
  debt_payments :: int
  other_expenses :: int
  rent_income_ratio :: int
  mortgage_interest :: real
  mortgage_term :: int

definition monthly_income :: "affordability_form \<Rightarrow> real" where
  "monthly_income f = real_of_int (yearly_income f) / 12 + real_of_int (additional_income f)"

definition affordable_rent :: "affordability_form \<Rightarrow> real" where
  "affordable_rent f = monthly_income f * (real_of_int (rent_income_ratio f) / 100)"

definition affordable_yearly_rent :: "affordability_form \<Rightarrow> real" where
  "affordable_yearly_rent f = affordable_rent f * 12"

definition monthly_payment_capacity :: "affordability_form \<Rightarrow> real" where
  "monthly_payment_capacity f = affordable_rent f - real_of_int (debt_payments f)"

text \<open>The locals \<open>r\<close> and \<open>n\<close> of the source: monthly rate and number of payments.\<close>

definition monthly_rate :: "affordability_form \<Rightarrow> real" where
  "monthly_rate f = mortgage_interest f / 100 / 12"

definition num_payments :: "affordability_form \<Rightarrow> int" where
  "num_payments f = mortgage_term f * 12"

text \<open>
  \<^verbatim>\<open>
  if r > 0:
      max_mortgage = monthly_payment_capacity * ((1 - (1 + r) ** -n) / r)
  else:
      max_mortgage = monthly_payment_capacity * n
  \<close>
  as a function of the capacity, \<open>r\<close> and \<open>n\<close>. With \<open>r > 0\<close> the base of the power is
  positive, so the negative exponent cannot fail.
\<close>

definition max_mortgage :: "real \<Rightarrow> real \<Rightarrow> int \<Rightarrow> real" where
  "max_mortgage capacity r n =
     (if r > 0 then capacity * ((1 - (1 + r) powi (- n)) / r)
      else capacity * real_of_int n)"

definition form_max_mortgage :: "affordability_form \<Rightarrow> real" where
  "form_max_mortgage f =
     max_mortgage (monthly_payment_capacity f) (monthly_rate f) (num_payments f)"

definition max_purchase_price :: "affordability_form \<Rightarrow> real" where
  "max_purchase_price f = form_max_mortgage f + real_of_int (down_payment f)"

text \<open>
  \<^verbatim>\<open>
  monthly_mortgage = max_mortgage * (r * (1 + r) ** n) / ((1 + r) ** n - 1) if r > 0
                     else max_mortgage / n
  \<close>
  Both divisions are divisions of Python floats and raise on a zero divisor.
\<close>

definition monthly_mortgage :: "real \<Rightarrow> real \<Rightarrow> int \<Rightarrow> py_error + real" where
  "monthly_mortgage mm r n =
     (if r > 0 then
        (if (1 + r) powi n - 1 = 0 then Inl ZeroDivisionError
         else Inr (mm * (r * (1 + r) powi n) / ((1 + r) powi n - 1)))
      else
        (if n = 0 then Inl ZeroDivisionError else Inr (mm / real_of_int n)))"

text \<open>The scenario of the specification's worked example; it leaves the other monthly
  expenses open, and no modelled value depends on them.\<close>

definition example_form :: "int \<Rightarrow> affordability_form" where
  "example_form oe =
     \<lparr>yearly_income = 200000, additional_income = 0, down_payment = 50000,
      debt_payments = 2000, other_expenses = oe, rent_income_ratio = 30,
      mortgage_interest = 4, mortgage_term = 25\<rparr>"

text \<open>A form the widgets accept (every \<open>min_value\<close> is met) with no income and the
  default debt payments.\<close>

definition no_income_form :: affordability_form where
  "no_income_form =
     \<lparr>yearly_income = 0, additional_income = 0, down_payment = 50000,
      debt_payments = 2000, other_expenses = 5000, rent_income_ratio = 30,
      mortgage_interest = 4, mortgage_term = 25\<rparr>"

subsection \<open>Rent versus buy projection\<close>

text \<open>\<open>years = list(range(1, 11))\<close>; only its length is read.\<close>

definition years :: "nat list" where
  "years = [1..<11]"

text \<open>\<open>np.cumsum\<close>: the running sums of a list.\<close>

fun cumsum_from :: "real \<Rightarrow> real list \<Rightarrow> real list" where
  "cumsum_from acc [] = []"
| "cumsum_from acc (x # xs) = (acc + x) # cumsum_from (acc + x) xs"

definition cumsum :: "real list \<Rightarrow> real list" where
  "cumsum xs = cumsum_from 0 xs"

text \<open>
  \<^verbatim>\<open>
  rent_costs = [affordable_yearly_rent * ((1 + 0.05) ** i) for i in range(len(years))]
  cumulative_rent = np.cumsum(rent_costs)
  \<close>
\<close>

definition rent_costs :: "real \<Rightarrow> real list" where
  "rent_costs ayr = map (\<lambda>i. ayr * ((1 + 5 / 100) ^ i)) [0..<length years]"

definition cumulative_rent :: "real \<Rightarrow> real list" where
  "cumulative_rent ayr = cumsum (rent_costs ayr)"





section \<open>Comparison tool (modules/comparison_tool.py)\<close>

text \<open>A row of the housing data frame, with the columns the affordability tab reads.\<close>

record listing =
  neighborhood :: string
  property_type :: string
  bedrooms :: int
  price_yearly_aed :: real









text \<open>\<open>within_budget = (nb_data["price_yearly_aed"] <= affordable_yearly_rent).mean() * 100\<close>:
  the mean of a boolean column is the share of true entries.\<close>

definition within_budget :: "real list \<Rightarrow> real \<Rightarrow> real" where
  "within_budget prices ayr =
     real (length (filter (\<lambda>p. p \<le> ayr) prices)) / real (length prices) * 100"








text \<open>The group of the specification's example for the statistics: three listings of
  one neighbourhood.\<close>

definition marina_listings :: "listing list" where
  "marina_listings =
     [\<lparr>neighborhood = ''Marina'', property_type = ''Apartment'', bedrooms = 1,
       price_yearly_aed = 60000\<rparr>,
      \<lparr>neighborhood = ''Marina'', property_type = ''Apartment'', bedrooms = 2,
       price_yearly_aed = 70000\<rparr>,
      \<lparr>neighborhood = ''Marina'', property_type = ''Villa'', bedrooms = 3,
       price_yearly_aed = 80000\<rparr>]"

section \<open>Helper facts\<close>

lemma growth_factor_gt_one:
  fixes r :: real
  assumes "0 < r" and "0 < n"
  shows "1 < (1 + r) powi n"
proof -
  from assms(2) obtain k where n: "n = int (Suc k)"
    by (metis Suc_pred' pos_int_cases)
  have "1 < (1 + r) ^ Suc k"
    using assms(1) by (intro one_less_power) auto
  then show ?thesis
    by (simp only: n power_int_of_nat)
qed

text \<open>An interval enclosure of \<open>(301/300)^300\<close> by repeated powers of rounded bounds.\<close>

lemma power_between:
  fixes x l u :: real
  assumes "0 \<le> l" and "l \<le> x" and "x \<le> u" and "l' \<le> l ^ k" and "u ^ k \<le> u'"
  shows "l' \<le> x ^ k \<and> x ^ k \<le> u'"
proof
  have "l ^ k \<le> x ^ k" using assms(1,2) by (intro power_mono)
  with assms(4) show "l' \<le> x ^ k" by linarith
  have "0 \<le> x" using assms(1,2) by linarith
  with assms(3) have "x ^ k \<le> u ^ k" by (intro power_mono)
  with assms(5) show "x ^ k \<le> u'" by linarith
qed

lemma growth_300_bounds:
  "2713765157796 / 10 ^ 12 \<le> (301 / 300 :: real) ^ 300
   \<and> (301 / 300 :: real) ^ 300 \<le> 2713765157995 / 10 ^ 12"
proof -
  let ?a = "301 / 300 :: real"
  have b5: "1016778148765 / 10 ^ 12 \<le> ?a ^ 5 \<and> ?a ^ 5 \<le> 1016778148766 / 10 ^ 12"
    by (simp add: power_divide)
  have b25: "1086753435685 / 10 ^ 12 \<le> (?a ^ 5) ^ 5 \<and> (?a ^ 5) ^ 5 \<le> 1086753435691 / 10 ^ 12"
    by (rule power_between[OF _ conjunct1[OF b5] conjunct2[OF b5]]) (simp_all add: power_divide)
  have b75: "1283491702980 / 10 ^ 12 \<le> ((?a ^ 5) ^ 5) ^ 3 \<and> ((?a ^ 5) ^ 5) ^ 3 \<le> 1283491703003 / 10 ^ 12"
    by (rule power_between[OF _ conjunct1[OF b25] conjunct2[OF b25]]) (simp_all add: power_divide)
  have b150: "1647350951618 / 10 ^ 12 \<le> (((?a ^ 5) ^ 5) ^ 3) ^ 2 \<and> (((?a ^ 5) ^ 5) ^ 3) ^ 2 \<le> 1647350951678 / 10 ^ 12"
    by (rule power_between[OF _ conjunct1[OF b75] conjunct2[OF b75]]) (simp_all add: power_divide)
  have b300: "2713765157796 / 10 ^ 12 \<le> ((((?a ^ 5) ^ 5) ^ 3) ^ 2) ^ 2 \<and> ((((?a ^ 5) ^ 5) ^ 3) ^ 2) ^ 2 \<le> 2713765157995 / 10 ^ 12"
    by (rule power_between[OF _ conjunct1[OF b150] conjunct2[OF b150]]) (simp_all add: power_divide)
  have e: "(300::nat) = 5 * 5 * 3 * 2 * 2" by simp
  have "?a ^ 300 = ((((?a ^ 5) ^ 5) ^ 3) ^ 2) ^ 2"
    by (subst e) (simp only: power_mult)
  with b300 show ?thesis by (simp only:)
qed

lemma max_mortgage_pos_rate:
  "0 < r \<Longrightarrow> max_mortgage c r (int k) = c * ((1 - inverse ((1 + r) ^ k)) / r)"
  by (simp add: max_mortgage_def power_int_minus)

lemma example_form_values:
  "monthly_income (example_form oe) = 50000 / 3"
  "affordable_rent (example_form oe) = 5000"
  "affordable_yearly_rent (example_form oe) = 60000"
  "monthly_payment_capacity (example_form oe) = 3000"
  "monthly_rate (example_form oe) = 1 / 300"
  "num_payments (example_form oe) = 300"
  by (simp_all add: example_form_def monthly_income_def affordable_rent_def
        affordable_yearly_rent_def monthly_payment_capacity_def monthly_rate_def
        num_payments_def)

lemma example_max_mortgage_bounds:
  "568357 < form_max_mortgage (example_form oe) \<and> form_max_mortgage (example_form oe) < 568358"
proof -
  define q :: real where "q = (301 / 300) ^ 300"
  have lo: "2713765157796 / 10 ^ 12 \<le> q" and hi: "q \<le> 2713765157995 / 10 ^ 12"
    unfolding q_def using growth_300_bounds by blast+
  have qpos: "0 < q" using lo by simp
  have i300: "(300::int) = int 300" by simp
  have base: "1 + 1 / 300 = (301 / 300 :: real)" by simp
  have "form_max_mortgage (example_form oe) = max_mortgage 3000 (1 / 300) (int 300)"
    by (simp only: form_max_mortgage_def example_form_values i300)
  also have "\<dots> = 3000 * ((1 - inverse ((1 + 1 / 300) ^ 300)) / (1 / 300))"
    by (rule max_mortgage_pos_rate) simp
  also have "\<dots> = 3000 * ((1 - inverse q) / (1 / 300))"
    by (simp only: base q_def)
  also have "\<dots> = 900000 * (1 - inverse q)"
    by simp
  finally have mm: "form_max_mortgage (example_form oe) = 900000 * (1 - inverse q)" .
  have "inverse q \<le> inverse (2713765157796 / 10 ^ 12)"
    using lo by (intro le_imp_inverse_le) simp_all
  moreover have "inverse (2713765157995 / 10 ^ 12) \<le> inverse q"
    using hi qpos by (intro le_imp_inverse_le) simp_all
  ultimately show ?thesis
    unfolding mm by simp
qed

lemma annuity_factor_pos:
  fixes r :: real
  assumes "0 < r" and "0 < n"
  shows "0 < (1 - (1 + r) powi (- n)) / r"
proof -
  have q: "1 < (1 + r) powi n"
    using assms by (rule growth_factor_gt_one)
  then have "inverse ((1 + r) powi n) < 1"
    by (simp add: inverse_less_1_iff)
  then have "0 < 1 - (1 + r) powi (- n)"
    by (simp add: power_int_minus)
  with assms(1) show ?thesis by simp
qed

lemma max_mortgage_sign:
  assumes "0 < r" and "0 < n"
  shows "max_mortgage c r n = c * ((1 - (1 + r) powi (- n)) / r)"
    and "c \<le> 0 \<Longrightarrow> max_mortgage c r n \<le> 0"
    and "max_mortgage c r n = 0 \<longleftrightarrow> c = 0"
    and "c < 0 \<Longrightarrow> max_mortgage c r n < 0"
proof -
  define F where "F = (1 - (1 + r) powi (- n)) / r"
  have f: "0 < F"
    unfolding F_def using assms by (rule annuity_factor_pos)
  have e: "max_mortgage c r n = c * F"
    using assms(1) by (simp add: max_mortgage_def F_def)
  show "max_mortgage c r n = c * ((1 - (1 + r) powi (- n)) / r)"
    using e by (simp only: F_def)
  show "c \<le> 0 \<Longrightarrow> max_mortgage c r n \<le> 0"
    unfolding e using f by (simp add: mult_nonpos_nonneg)
  show "max_mortgage c r n = 0 \<longleftrightarrow> c = 0"
    unfolding e using f by simp
  show "c < 0 \<Longrightarrow> max_mortgage c r n < 0"
    unfolding e using f by (simp add: mult_neg_pos)
qed

lemma no_income_form_values:
  "monthly_payment_capacity no_income_form = - 2000"
  "monthly_rate no_income_form = 1 / 300"
  "num_payments no_income_form = 300"
  "mortgage_interest no_income_form = 4"
  "mortgage_term no_income_form = 25"
  "down_payment no_income_form = 50000"
  by (simp_all add: no_income_form_def monthly_income_def affordable_rent_def
        monthly_payment_capacity_def monthly_rate_def num_payments_def)

lemma cumsum_from_above:
  "\<forall>x\<in>set xs. 0 \<le> x \<Longrightarrow> y \<in> set (cumsum_from acc xs) \<Longrightarrow> acc \<le> y"
proof (induction xs arbitrary: acc)
  case Nil
  then show ?case by simp
next
  case (Cons x xs)
  from Cons.prems(2) consider "y = acc + x" | "y \<in> set (cumsum_from (acc + x) xs)"
    by auto
  then show ?case
  proof cases
    case 1
    with Cons.prems(1) show ?thesis by simp
  next
    case 2
    with Cons.IH[of "acc + x"] Cons.prems(1) have "acc + x \<le> y" by simp
    with Cons.prems(1) show ?thesis by simp
  qed
qed

lemma cumsum_from_nondecreasing:
  "\<forall>x\<in>set xs. 0 \<le> x \<Longrightarrow> sorted_wrt (\<le>) (cumsum_from acc xs)"
proof (induction xs arbitrary: acc)
  case Nil
  then show ?case by simp
next
  case (Cons x xs)
  have tl: "\<forall>x\<in>set xs. 0 \<le> x" using Cons.prems by simp
  have "\<forall>y\<in>set (cumsum_from (acc + x) xs). acc + x \<le> y"
    using cumsum_from_above[OF tl] by blast
  with Cons.IH[OF tl] show ?case by simp
qed

lemma cumsum_from_strictly_above:
  "\<forall>x\<in>set xs. 0 < x \<Longrightarrow> y \<in> set (cumsum_from acc xs) \<Longrightarrow> acc < y"
proof (induction xs arbitrary: acc)
  case Nil
  then show ?case by simp
next
  case (Cons x xs)
  from Cons.prems(2) consider "y = acc + x" | "y \<in> set (cumsum_from (acc + x) xs)"
    by auto
  then show ?case
  proof cases
    case 1
    with Cons.prems(1) show ?thesis by simp
  next
    case 2
    with Cons.IH[of "acc + x"] Cons.prems(1) have "acc + x < y" by simp
    with Cons.prems(1) show ?thesis by simp
  qed
qed

lemma cumsum_from_increasing:
  "\<forall>x\<in>set xs. 0 < x \<Longrightarrow> sorted_wrt (<) (cumsum_from acc xs)"
proof (induction xs arbitrary: acc)
  case Nil
  then show ?case by simp
next
  case (Cons x xs)
  have tl: "\<forall>x\<in>set xs. 0 < x" using Cons.prems by simp
  have "\<forall>y\<in>set (cumsum_from (acc + x) xs). acc + x < y"
    using cumsum_from_strictly_above[OF tl] by blast
  with Cons.IH[OF tl] show ?case by simp
qed

lemma length_cumsum_from: "length (cumsum_from acc xs) = length xs"
  by (induction xs arbitrary: acc) simp_all

lemma rent_costs_sign:
  "0 < ayr \<Longrightarrow> \<forall>x\<in>set (rent_costs ayr). 0 < x"
  "0 \<le> ayr \<Longrightarrow> \<forall>x\<in>set (rent_costs ayr). 0 \<le> x"
  by (auto simp: rent_costs_def)










lemma share_bounds:
  assumes "xs \<noteq> []"
  shows "0 \<le> real (length (filter P xs)) / real (length xs)"
    and "real (length (filter P xs)) / real (length xs) \<le> 1"
    and "real (length (filter P xs)) / real (length xs) = 1 \<longleftrightarrow> (\<forall>x\<in>set xs. P x)"
    and "real (length (filter P xs)) / real (length xs) = 0 \<longleftrightarrow> (\<forall>x\<in>set xs. \<not> P x)"
proof -
  have pos: "0 < real (length xs)" using assms by simp
  have le: "length (filter P xs) \<le> length xs" by (rule length_filter_le)
  show "0 \<le> real (length (filter P xs)) / real (length xs)" by simp
  show "real (length (filter P xs)) / real (length xs) \<le> 1"
    using pos le by (simp add: divide_le_eq)
  have "real (length (filter P xs)) / real (length xs) = 1
          \<longleftrightarrow> length (filter P xs) = length xs"
    using pos by (simp add: divide_eq_eq)
  also have "\<dots> \<longleftrightarrow> (\<forall>x\<in>set xs. P x)"
  proof
    assume eq: "length (filter P xs) = length xs"
    show "\<forall>x\<in>set xs. P x"
    proof
      fix x assume "x \<in> set xs"
      then show "P x" using length_filter_less[of x xs P] eq by auto
    qed
  next
    assume "\<forall>x\<in>set xs. P x"
    then have "filter P xs = xs" by (simp add: filter_id_conv)
    then show "length (filter P xs) = length xs" by simp
  qed
  finally show "real (length (filter P xs)) / real (length xs) = 1 \<longleftrightarrow> (\<forall>x\<in>set xs. P x)" .
  have "real (length (filter P xs)) / real (length xs) = 0 \<longleftrightarrow> filter P xs = []"
    using pos by simp
  also have "\<dots> \<longleftrightarrow> (\<forall>x\<in>set xs. \<not> P x)"
    by (simp add: filter_empty_conv)
  finally show "real (length (filter P xs)) / real (length xs) = 0 \<longleftrightarrow> (\<forall>x\<in>set xs. \<not> P x)" .
qed


section \<open>Properties of the affordability calculator\<close>

text \<open>
  C9. With a monthly interest rate of zero, the maximum mortgage is the monthly payment
  capacity times the number of months, for every capacity and every term.
\<close>

theorem max_mortgage_zero_rate:
  "max_mortgage c 0 n = c * real_of_int n"
  by (simp add: max_mortgage_def)

text \<open>
  C1. For every monthly rate \<open>r > 0\<close> and term \<open>n > 0\<close>, and every monthly payment capacity,
  the payment formula applied to the maximum mortgage of the present-value formula does
  not fail and returns the capacity, in exact arithmetic.
\<close>

theorem payment_round_trip:
  assumes "0 < r" and "0 < n"
  shows "monthly_mortgage (max_mortgage c r n) r n = Inr c"
proof -
  define q where "q = (1 + r) powi n"
  have q: "1 < q"
    unfolding q_def using assms by (rule growth_factor_gt_one)
  have inv: "(1 + r) powi (- n) = inverse q"
    unfolding q_def by (rule power_int_minus)
  have "c * ((1 - inverse q) / r) * (r * q) / (q - 1) = c"
    using q assms(1) by (simp add: field_simps)
  then show ?thesis
    using q assms(1) by (simp add: monthly_mortgage_def max_mortgage_def inv q_def[symmetric])
qed

theorem payment_round_trip_witness:
  "(0::real) < 1 / 300 \<and> (0::int) < 300
   \<and> monthly_mortgage (max_mortgage 3000 (1 / 300) 300) (1 / 300) 300 = Inr 3000"
  using payment_round_trip[of "1 / 300" 300 3000] by simp

text \<open>
  C2 as it holds. In the worked example (income 200000, no additional income, ratio 30
  percent, debt 2000, down payment 50000, 4 percent over 25 years) the monthly income is
  \<open>200000 / 12\<close>, which is 16666.67 to two decimals, the affordable rent is 5000 a month
  and 60000 a year, the payment capacity is 3000, \<open>r = 0.04 / 12\<close>, \<open>n = 300\<close>, the maximum
  mortgage lies between 568357 and 568358, and the maximum purchase price is the maximum
  mortgage plus 50000.
\<close>

theorem example_scenario:
  "monthly_income (example_form oe) = 200000 / 12
   \<and> \<bar>monthly_income (example_form oe) - 16666.67\<bar> < 0.005
   \<and> affordable_rent (example_form oe) = 5000
   \<and> affordable_yearly_rent (example_form oe) = 60000
   \<and> monthly_payment_capacity (example_form oe) = 3000
   \<and> monthly_rate (example_form oe) = 0.04 / 12
   \<and> num_payments (example_form oe) = 300
   \<and> 568357 < form_max_mortgage (example_form oe)
   \<and> form_max_mortgage (example_form oe) < 568358
   \<and> max_purchase_price (example_form oe) = form_max_mortgage (example_form oe) + 50000"
proof -
  have "max_purchase_price (example_form oe) = form_max_mortgage (example_form oe) + 50000"
    by (simp add: max_purchase_price_def example_form_def)
  then show ?thesis
    using example_max_mortgage_bounds[of oe] by (simp add: example_form_values)
qed

text \<open>
  C2 as stated fails: the maximum mortgage of the worked example is not in the range from
  569000 to 575000.
\<close>

theorem example_max_mortgage_below_stated_range:
  "\<not> (569000 \<le> form_max_mortgage (example_form 5000)
       \<and> form_max_mortgage (example_form 5000) \<le> 575000)"
  using example_max_mortgage_bounds[of 5000] by simp

text \<open>
  C3 as it holds. The calculator has no guard on the payment capacity: with a capacity of
  zero or less (and the positive rate and term that the sliders give) the maximum mortgage
  is still the capacity times the annuity factor, so it is zero or less, and zero only for
  a capacity of exactly zero; the maximum purchase price adds the down payment to it. No
  degenerate result is reported.
\<close>

theorem nonpositive_capacity_unguarded:
  assumes "0 < mortgage_interest f" and "0 < mortgage_term f"
    and "monthly_payment_capacity f \<le> 0"
  shows "form_max_mortgage f =
           monthly_payment_capacity f *
             ((1 - (1 + monthly_rate f) powi (- num_payments f)) / monthly_rate f)
         \<and> form_max_mortgage f \<le> 0
         \<and> (form_max_mortgage f = 0 \<longleftrightarrow> monthly_payment_capacity f = 0)
         \<and> max_purchase_price f = form_max_mortgage f + real_of_int (down_payment f)"
proof -
  have r: "0 < monthly_rate f"
    using assms(1) by (simp add: monthly_rate_def)
  have n: "0 < num_payments f"
    using assms(2) by (simp add: num_payments_def)
  show ?thesis
    unfolding form_max_mortgage_def max_purchase_price_def
    using max_mortgage_sign[OF r n, of "monthly_payment_capacity f"] assms(3)
    by blast
qed

theorem nonpositive_capacity_unguarded_witness:
  "0 < mortgage_interest no_income_form \<and> 0 < mortgage_term no_income_form
   \<and> monthly_payment_capacity no_income_form \<le> 0
   \<and> form_max_mortgage no_income_form \<le> 0
   \<and> max_purchase_price no_income_form = form_max_mortgage no_income_form + 50000"
  using nonpositive_capacity_unguarded[of no_income_form]
  by (simp add: no_income_form_values)

text \<open>
  C3 as stated fails: with no income and 2000 of monthly debt the capacity is negative and
  the maximum mortgage is not zero.
\<close>

theorem negative_capacity_negative_mortgage:
  "monthly_payment_capacity no_income_form \<le> 0 \<and> form_max_mortgage no_income_form \<noteq> 0"
proof -
  have "form_max_mortgage no_income_form = max_mortgage (- 2000) (1 / 300) 300"
    by (simp only: form_max_mortgage_def no_income_form_values)
  moreover have "max_mortgage (- 2000) (1 / 300) 300 < 0"
    by (rule max_mortgage_sign(4)) simp_all
  ultimately show ?thesis
    by (simp add: no_income_form_values)
qed

text \<open>
  C6. The cumulative rent series has one entry per year of the ten-year horizon; it is
  strictly increasing in the year when the affordable yearly rent is positive (the growth
  rate of the source is the constant 5 percent), and non-decreasing whenever the rent is
  not negative.
\<close>

theorem cumulative_rent_monotone:
  "length (cumulative_rent ayr) = 10
   \<and> (0 < ayr \<longrightarrow> sorted_wrt (<) (cumulative_rent ayr))
   \<and> (0 \<le> ayr \<longrightarrow> sorted_wrt (\<le>) (cumulative_rent ayr))"
  unfolding cumulative_rent_def cumsum_def
  using cumsum_from_increasing[OF rent_costs_sign(1)]
        cumsum_from_nondecreasing[OF rent_costs_sign(2)]
  by (simp add: length_cumsum_from rent_costs_def years_def)

theorem cumulative_rent_monotone_witness:
  "(0::real) < 60000 \<and> sorted_wrt (<) (cumulative_rent 60000)
   \<and> sorted_wrt (\<le>) (cumulative_rent 60000)"
  using cumulative_rent_monotone[of 60000] by simp



section \<open>Properties of the comparison tool\<close>







text \<open>
  C7. For a non-empty group of listings the share within budget is 100 times the number of
  rows priced at or below the budget divided by the number of rows; it lies between 0 and
  100, is 100 exactly when every row is within the budget, and 0 exactly when none is.
\<close>

theorem within_budget_share:
  assumes "nb_data \<noteq> []"
  shows "within_budget (map price_yearly_aed nb_data) budget =
           100 * real (length (filter (\<lambda>l. price_yearly_aed l \<le> budget) nb_data))
             / real (length nb_data)
         \<and> 0 \<le> within_budget (map price_yearly_aed nb_data) budget
         \<and> within_budget (map price_yearly_aed nb_data) budget \<le> 100
         \<and> (within_budget (map price_yearly_aed nb_data) budget = 100
              \<longleftrightarrow> (\<forall>l\<in>set nb_data. price_yearly_aed l \<le> budget))
         \<and> (within_budget (map price_yearly_aed nb_data) budget = 0
              \<longleftrightarrow> (\<forall>l\<in>set nb_data. \<not> price_yearly_aed l \<le> budget))"
proof -
  let ?P = "\<lambda>l. price_yearly_aed l \<le> budget"
  define s where "s = real (length (filter ?P nb_data)) / real (length nb_data)"
  have wb: "within_budget (map price_yearly_aed nb_data) budget = s * 100"
    by (simp add: within_budget_def comp_def s_def)
  note b = share_bounds[OF assms, of ?P, folded s_def]
  have "s * 100 = 100 * real (length (filter ?P nb_data)) / real (length nb_data)"
    by (simp add: s_def)
  moreover have "0 \<le> s * 100" using b(1) by simp
  moreover have "s * 100 \<le> 100" using b(2) by simp
  moreover have "s * 100 = 100 \<longleftrightarrow> (\<forall>l\<in>set nb_data. ?P l)"
    using b(3) by simp
  moreover have "s * 100 = 0 \<longleftrightarrow> (\<forall>l\<in>set nb_data. \<not> ?P l)"
    using b(4) by simp
  ultimately show ?thesis
    unfolding wb by blast
qed

theorem within_budget_share_witness:
  "marina_listings \<noteq> []
   \<and> within_budget (map price_yearly_aed marina_listings) 65000 = 100 / 3
   \<and> within_budget (map price_yearly_aed marina_listings) 80000 = 100
   \<and> within_budget (map price_yearly_aed marina_listings) 50000 = 0"
  using within_budget_share[of marina_listings 65000]
        within_budget_share[of marina_listings 80000]
        within_budget_share[of marina_listings 50000]
  by (simp add: marina_listings_def)




end
